theory Spec2Isabelle
  imports Complex_Main
begin

section \<open>Media type detection (lib/media-utils)\<close>

text \<open>
  The TypeScript type \<^verbatim>\<open>MediaType = "video" | "image"\<close>.
\<close>

datatype MediaType = Video | Image








section \<open>Grid sizing (lib/webgl)\<close>

record GridDimensions =
  cols :: int
  rows :: int

text \<open>
  Modelled from the spec: \<^verbatim>\<open>calculateGridDimensions\<close> is imported from
  \<^verbatim>\<open>@/lib/webgl\<close>, which is not among the sources; only its call in
  \<^verbatim>\<open>initWebGL\<close> is. The specification gives it as
  \<^verbatim>\<open>computeGrid(mediaW, mediaH, targetColumns) -> {columns, rows}\<close> with
  \<^verbatim>\<open>rows = round(targetColumns * (mediaH/mediaW) / characterCellAspectRatio)\<close>,
  clamped to at least 1, and \<^verbatim>\<open>columns = targetColumns\<close>. The character cell aspect
  ratio is a constant of the library and is a parameter here. Numbers are exact reals, and
  \<open>round x\<close> is \<open>\<lfloor>x + 1/2\<rfloor>\<close>, as \<^verbatim>\<open>Math.round\<close> is. The specification leaves a media
  width of 0 undefined; every caller checks the width first.
\<close>

definition calculateGridDimensions :: "real \<Rightarrow> nat \<Rightarrow> nat \<Rightarrow> int \<Rightarrow> GridDimensions" where
  "calculateGridDimensions characterCellAspectRatio mediaW mediaH targetColumns =
     \<lparr>cols = targetColumns,
      rows = max 1 (round (real_of_int targetColumns * (real mediaH / real mediaW)
                             / characterCellAspectRatio))\<rparr>"

section \<open>The graphics context\<close>

text \<open>
  The names of the shader's uniforms, as \<^verbatim>\<open>cacheUniformLocations\<close> lists them, and the
  values the \<^verbatim>\<open>gl.uniform1i\<close>, \<^verbatim>\<open>gl.uniform1f\<close> and \<^verbatim>\<open>gl.uniform2f\<close> calls store.
\<close>

datatype uname =
    U_video | U_asciiAtlas | U_resolution | U_charSize | U_gridSize | U_numChars
  | U_colored | U_blend | U_highlight | U_brightness | U_ditherMode
  | U_mouse | U_mouseRadius | U_trailLength | U_trail nat
  | U_time | U_rippleEnabled | U_rippleSpeed | U_ripples nat
  | U_audioLevel | U_audioReactivity | U_audioSensitivity

datatype uval = UInt int | UFloat real | UVec2 real real

type_synonym uniforms = "uname \<Rightarrow> uval option"

text \<open>
  The part of the \<^verbatim>\<open>WebGL2RenderingContext\<close> the hook depends on: the shader, program and
  texture objects that exist (created and not deleted), the next fresh object handle, the
  program in use with the values of its uniforms (\<open>None\<close>: never written), and one entry
  per \<^verbatim>\<open>gl.drawArrays\<close> call holding the uniform values the draw ran with. Texture
  contents, filters and bindings are not represented.
\<close>

record gl_state =
  shaders :: "nat set"
  programs :: "nat set"
  textures :: "nat set"
  nextObject :: nat
  currentProgram :: "nat option"
  uniformValues :: uniforms
  drawn :: "uniforms list"

text \<open>
  Modelled from the spec: \<^verbatim>\<open>compileShader\<close>, \<^verbatim>\<open>createProgram\<close>,
  \<^verbatim>\<open>createVideoTexture\<close> and \<^verbatim>\<open>createAsciiAtlas\<close> are imported from
  \<^verbatim>\<open>@/lib/webgl\<close>, which is not among the sources. The hook uses a null result of
  the first two as failure (the specification: initialisation fails if shader compilation
  fails or program linking fails) and any other result as a new GPU object. Whether a call
  succeeds is a parameter. A failing call is taken to leave no object behind, and a
  succeeding call to create exactly the object it returns.
\<close>

definition compileShader :: "bool \<Rightarrow> gl_state \<Rightarrow> nat option \<times> gl_state" where
  "compileShader ok g =
     (if ok then (Some (nextObject g),
                  g\<lparr>shaders := insert (nextObject g) (shaders g), nextObject := Suc (nextObject g)\<rparr>)
      else (None, g))"

definition createProgram :: "bool \<Rightarrow> gl_state \<Rightarrow> nat option \<times> gl_state" where
  "createProgram ok g =
     (if ok then (Some (nextObject g),
                  g\<lparr>programs := insert (nextObject g) (programs g), nextObject := Suc (nextObject g)\<rparr>)
      else (None, g))"

definition createTexture :: "gl_state \<Rightarrow> nat \<times> gl_state" where
  "createTexture g =
     (nextObject g, g\<lparr>textures := insert (nextObject g) (textures g), nextObject := Suc (nextObject g)\<rparr>)"

text \<open>The calls of the WebGL interface itself.\<close>

definition deleteTexture :: "nat \<Rightarrow> gl_state \<Rightarrow> gl_state" where
  "deleteTexture t g = g\<lparr>textures := textures g - {t}\<rparr>"

definition deleteProgram :: "nat \<Rightarrow> gl_state \<Rightarrow> gl_state" where
  "deleteProgram p g = g\<lparr>programs := programs g - {p}\<rparr>"

text \<open>
  \<^verbatim>\<open>gl.useProgram\<close> is only ever called with a program that was just linked, whose
  uniforms have not been written.
\<close>

definition useProgram :: "nat \<Rightarrow> gl_state \<Rightarrow> gl_state" where
  "useProgram p g = g\<lparr>currentProgram := Some p, uniformValues := Map.empty\<rparr>"

definition drawArrays :: "gl_state \<Rightarrow> gl_state" where
  "drawArrays g = g\<lparr>drawn := drawn g @ [uniformValues g]\<rparr>"

section \<open>The hook's options and surroundings\<close>

text \<open>
  The options the closures of \<^verbatim>\<open>useAny2Ascii\<close> capture. \<open>chars\<close> is
  \<^verbatim>\<open>getCharArray(charset)\<close>, a table lookup outside the sources. An optional number is
  \<open>None\<close> when it is not given.
\<close>

record options =
  fontSize :: "real option"
  numColumns :: "nat option"
  colored :: bool
  blend :: real
  highlight :: real
  brightness :: real
  dither :: string
  chars :: "string list"
  maxWidth :: "real option"
  mediaType :: MediaType

text \<open>
  What the hook reads from its surroundings: which elements the refs hold, the media
  element's properties, the container and window widths, the library constants
  \<^verbatim>\<open>CHAR_WIDTH_RATIO\<close> and the character cell aspect ratio, and whether the canvas gives
  a WebGL2 context and the shaders compile and link.
\<close>

record env =
  canvasPresent :: bool
  containerPresent :: bool
  clientWidth :: real
  innerWidth :: real
  videoPresent :: bool
  videoWidth :: nat
  videoHeight :: nat
  videoReadyState :: nat
  videoPaused :: bool
  videoEnded :: bool
  imagePresent :: bool
  naturalWidth :: nat
  naturalHeight :: nat
  imageComplete :: bool
  CHAR_WIDTH_RATIO :: real
  cellAspectRatio :: real
  webgl2Available :: bool
  vertexCompiles :: bool
  fragmentCompiles :: bool
  programLinks :: bool

text \<open>\<^verbatim>\<open>a || b\<close> for an optional number \<open>a\<close>: \<open>b\<close> when \<open>a\<close> is missing or 0.\<close>

definition orElse :: "real option \<Rightarrow> real \<Rightarrow> real" where
  "orElse a b = (case a of None \<Rightarrow> b | Some x \<Rightarrow> if x = 0 then b else x)"

text \<open>The truthy value of \<^verbatim>\<open>numColumns\<close>, if it has one.\<close>

definition givenColumns :: "options \<Rightarrow> nat option" where
  "givenColumns opts =
     (case numColumns opts of None \<Rightarrow> None | Some n \<Rightarrow> if n = 0 then None else Some n)"

definition calculatedFontSize :: "options \<Rightarrow> env \<Rightarrow> real" where
  "calculatedFontSize opts e =
     (let containerWidth = orElse (maxWidth opts) (innerWidth e)
      in case givenColumns opts of
           Some n \<Rightarrow> containerWidth / (real n * CHAR_WIDTH_RATIO e)
         | None \<Rightarrow> orElse (fontSize opts) 10)"


section \<open>The hook's state\<close>

record AsciiStats =
  fps :: nat
  frameTime :: real

text \<open>
  A uniform setter is called with the context, the program and the cached locations; what
  it does is to write uniforms of the program in use.
\<close>

type_synonym UniformSetter = "uniforms \<Rightarrow> uniforms"

text \<open>
  The refs and the React state of \<^verbatim>\<open>useAny2Ascii\<close>, with the graphics context of the
  canvas and the browser's animation frame requests. \<open>glRef\<close> tells whether the ref holds
  the context; \<open>uniformLocationsRef\<close> holds the program whose locations are cached.
  \<open>uniformSetters\<close> is the \<^verbatim>\<open>Map\<close> in insertion order. \<open>emitted\<close> lists the snapshots
  passed to \<^verbatim>\<open>setStats\<close> and \<^verbatim>\<open>onStats\<close>. \<open>pending\<close> holds the ids of the requested
  animation frames that have neither run nor been cancelled.
\<close>

record state =
  gl :: gl_state
  glRef :: bool
  programRef :: "nat option"
  videoTextureRef :: "nat option"
  atlasTextureRef :: "nat option"
  animationRef :: nat
  needsMipmapUpdateRef :: bool
  uniformSetters :: "(string \<times> UniformSetter) list"
  uniformLocationsRef :: "nat option"
  frameCount :: nat
  frameTimes :: "real list"
  lastFpsTime :: real
  dimensions :: GridDimensions
  stats :: AsciiStats
  isReady :: bool
  isPlaying :: bool
  emitted :: "AsciiStats list"
  pending :: "nat set"
  nextFrameId :: nat

text \<open>
  The state on mount, at time \<open>t0\<close> (\<^verbatim>\<open>lastFpsTimeRef\<close> starts at
  \<^verbatim>\<open>performance.now()\<close>). Request ids start at 1, so the initial \<^verbatim>\<open>animationRef\<close> of 0
  is no request.
\<close>

definition initialState :: "real \<Rightarrow> state" where
  "initialState t0 =
     \<lparr>gl = \<lparr>shaders = {}, programs = {}, textures = {}, nextObject = 0,
             currentProgram = None, uniformValues = Map.empty, drawn = []\<rparr>,
      glRef = False, programRef = None, videoTextureRef = None, atlasTextureRef = None,
      animationRef = 0, needsMipmapUpdateRef = True, uniformSetters = [],
      uniformLocationsRef = None, frameCount = 0, frameTimes = [], lastFpsTime = t0,
      dimensions = \<lparr>cols = 80, rows = 24\<rparr>, stats = \<lparr>fps = 0, frameTime = 0\<rparr>,
      isReady = False, isPlaying = False, emitted = [], pending = {}, nextFrameId = 1\<rparr>"

subsection \<open>Animation frames\<close>

definition requestAnimationFrame :: "state \<Rightarrow> nat \<times> state" where
  "requestAnimationFrame s =
     (nextFrameId s, s\<lparr>pending := insert (nextFrameId s) (pending s),
                        nextFrameId := Suc (nextFrameId s)\<rparr>)"

definition cancelAnimationFrame :: "nat \<Rightarrow> state \<Rightarrow> state" where
  "cancelAnimationFrame i s = s\<lparr>pending := pending s - {i}\<rparr>"

text \<open>\<^verbatim>\<open>animationRef.current = requestAnimationFrame(render)\<close>.\<close>

definition scheduleRender :: "state \<Rightarrow> state" where
  "scheduleRender s =
     (let (i, s') = requestAnimationFrame s in s'\<lparr>animationRef := i\<rparr>)"

subsection \<open>The uniform registry\<close>

text \<open>
  \<^verbatim>\<open>Map.prototype.set\<close>: an existing key keeps its place and gets the new value, a new
  key goes to the end. \<^verbatim>\<open>Map.prototype.delete\<close> removes the key.
\<close>

fun mapSet :: "'k \<Rightarrow> 'v \<Rightarrow> ('k \<times> 'v) list \<Rightarrow> ('k \<times> 'v) list" where
  "mapSet k v [] = [(k, v)]"
| "mapSet k v ((k', v') # m) = (if k' = k then (k, v) # m else (k', v') # mapSet k v m)"

definition mapDelete :: "'k \<Rightarrow> ('k \<times> 'v) list \<Rightarrow> ('k \<times> 'v) list" where
  "mapDelete k m = filter (\<lambda>e. fst e \<noteq> k) m"

definition registerUniformSetter :: "string \<Rightarrow> UniformSetter \<Rightarrow> state \<Rightarrow> state" where
  "registerUniformSetter ident setter s =
     s\<lparr>uniformSetters := mapSet ident setter (uniformSetters s)\<rparr>"

definition unregisterUniformSetter :: "string \<Rightarrow> state \<Rightarrow> state" where
  "unregisterUniformSetter ident s = s\<lparr>uniformSetters := mapDelete ident (uniformSetters s)\<rparr>"

text \<open>
  \<^verbatim>\<open>for (const setter of uniformSettersRef.current.values()) setter(gl, program, locations)\<close>
\<close>

definition applySetters :: "(string \<times> UniformSetter) list \<Rightarrow> uniforms \<Rightarrow> uniforms" where
  "applySetters m u = fold (\<lambda>setter. setter) (map snd m) u"

subsection \<open>Drawing\<close>

text \<open>
  The four uniform writes before the setters run, the same in \<^verbatim>\<open>render\<close> and
  \<^verbatim>\<open>renderFrame\<close>.
\<close>

definition writeFrameUniforms :: "options \<Rightarrow> uniforms \<Rightarrow> uniforms" where
  "writeFrameUniforms opts u =
     u(U_colored \<mapsto> UInt (if colored opts then 1 else 0),
       U_blend \<mapsto> UFloat (blend opts / 100),
       U_highlight \<mapsto> UFloat (highlight opts / 100),
       U_brightness \<mapsto> UFloat (brightness opts))"

text \<open>
  From the uniform writes to \<^verbatim>\<open>gl.drawArrays(gl.TRIANGLES, 0, 6)\<close>, the same in
  \<^verbatim>\<open>render\<close> and \<^verbatim>\<open>renderFrame\<close>.
\<close>

definition drawFrame :: "options \<Rightarrow> state \<Rightarrow> state" where
  "drawFrame opts s =
     s\<lparr>gl := drawArrays
               ((gl s)\<lparr>uniformValues :=
                  applySetters (uniformSetters s) (writeFrameUniforms opts (uniformValues (gl s)))\<rparr>)\<rparr>"

text \<open>
  \<^verbatim>\<open>renderFrame\<close>, the single frame of an image. The texture upload is not represented;
  the mipmap flag is cleared whether it was set or not.
\<close>

definition renderFrame :: "options \<Rightarrow> env \<Rightarrow> state \<Rightarrow> state" where
  "renderFrame opts e s =
     (if \<not> glRef s \<or> \<not> imagePresent e \<or> programRef s = None \<or> uniformLocationsRef s = None
      then s
      else drawFrame opts (s\<lparr>needsMipmapUpdateRef := False\<rparr>))"

text \<open>
  The statistics at the end of \<^verbatim>\<open>render\<close>: \<open>frameStart\<close>, \<open>frameEnd\<close> and \<open>now\<close> are the
  three readings of \<^verbatim>\<open>performance.now()\<close>.
\<close>

definition trackPerformance :: "real \<Rightarrow> real \<Rightarrow> real \<Rightarrow> state \<Rightarrow> state" where
  "trackPerformance frameStart frameEnd now s =
     (let pushed = frameTimes s @ [frameEnd - frameStart];
          s1 = s\<lparr>frameCount := frameCount s + 1,
                 frameTimes := (if length pushed > 60 then tl pushed else pushed)\<rparr>
      in if now - lastFpsTime s1 \<ge> 1000
         then
           let avgFrameTime = sum_list (frameTimes s1) / real (length (frameTimes s1));
               newStats = \<lparr>fps = frameCount s1, frameTime = avgFrameTime\<rparr>
           in s1\<lparr>stats := newStats, emitted := emitted s1 @ [newStats],
                 frameCount := 0, lastFpsTime := now\<rparr>
         else s1)"

text \<open>
  \<^verbatim>\<open>render\<close>, one tick of the loop. It returns early, without a draw and without a new
  request, when the session is missing, the media element is missing, or the video is
  paused or has ended.
\<close>

definition render :: "options \<Rightarrow> env \<Rightarrow> real \<times> real \<times> real \<Rightarrow> state \<Rightarrow> state" where
  "render opts e t s =
     (if \<not> glRef s \<or> programRef s = None \<or> uniformLocationsRef s = None then s
      else if \<not> (if mediaType opts = Video then videoPresent e else imagePresent e) then s
      else if mediaType opts = Video \<and> videoPresent e \<and> (videoPaused e \<or> videoEnded e) then s
      else
        let (frameStart, frameEnd, now) = t;
            s1 = (if mediaType opts = Video \<and> needsMipmapUpdateRef s
                  then s\<lparr>needsMipmapUpdateRef := False\<rparr> else s);
            s2 = drawFrame opts s1;
            s3 = trackPerformance frameStart frameEnd now s2
        in scheduleRender s3)"


subsection \<open>Initialisation\<close>

text \<open>
  The sizes \<^verbatim>\<open>initWebGL\<close> derives from the container's current width and the media's
  dimensions. Numbers are exact reals. The media element of the hook's media type is
  present when these are computed.
\<close>

record layout =
  finalCols :: int
  finalFontSize :: real
  grid :: GridDimensions

definition computeLayout :: "options \<Rightarrow> env \<Rightarrow> layout" where
  "computeLayout opts e =
     (let currentWidth = clientWidth e;
          fCols = (case givenColumns opts of
                     Some n \<Rightarrow> int n
                   | None \<Rightarrow> \<lfloor>currentWidth / (calculatedFontSize opts e * CHAR_WIDTH_RATIO e)\<rfloor>);
          fFontSize = (case givenColumns opts of
                         Some n \<Rightarrow> currentWidth / (real n * CHAR_WIDTH_RATIO e)
                       | None \<Rightarrow> calculatedFontSize opts e);
          mediaWidth = (if mediaType opts = Video \<and> videoPresent e then videoWidth e
                        else if imagePresent e then naturalWidth e else 0);
          mediaHeight = (if mediaType opts = Video \<and> videoPresent e then videoHeight e
                         else if imagePresent e then naturalHeight e else 0)
      in \<lparr>finalCols = fCols, finalFontSize = fFontSize,
          grid = calculateGridDimensions (cellAspectRatio e) mediaWidth mediaHeight fCols\<rparr>)"

text \<open>\<^verbatim>\<open>dither === "bayer" ? 1 : dither === "random" ? 2 : 0\<close>\<close>

definition ditherModeValue :: "string \<Rightarrow> real" where
  "ditherModeValue d = (if d = ''bayer'' then 1 else if d = ''random'' then 2 else 0)"

text \<open>
  The uniforms \<^verbatim>\<open>initWebGL\<close> writes after linking: the texture units, the static
  uniforms and the feature uniforms in their disabled state.
\<close>

definition writeStaticUniforms :: "options \<Rightarrow> env \<Rightarrow> layout \<Rightarrow> uniforms \<Rightarrow> uniforms" where
  "writeStaticUniforms opts e l u =
     (let finalCharWidth = finalFontSize l * CHAR_WIDTH_RATIO e;
          pixelWidth = real_of_int (cols (grid l)) * finalCharWidth;
          pixelHeight = real_of_int (rows (grid l)) * finalFontSize l
      in u(U_video \<mapsto> UInt 0,
           U_asciiAtlas \<mapsto> UInt 1,
           U_resolution \<mapsto> UVec2 pixelWidth pixelHeight,
           U_charSize \<mapsto> UVec2 finalCharWidth (finalFontSize l),
           U_gridSize \<mapsto> UVec2 (real_of_int (finalCols l)) (real_of_int (rows (grid l))),
           U_numChars \<mapsto> UFloat (real (length (chars opts))),
           U_brightness \<mapsto> UFloat (brightness opts),
           U_ditherMode \<mapsto> UFloat (ditherModeValue (dither opts)),
           U_mouse \<mapsto> UVec2 (- 1) (- 1),
           U_mouseRadius \<mapsto> UFloat 0,
           U_trailLength \<mapsto> UInt 0,
           U_rippleEnabled \<mapsto> UFloat 0,
           U_audioLevel \<mapsto> UFloat 0,
           U_audioReactivity \<mapsto> UFloat 0,
           U_audioSensitivity \<mapsto> UFloat 0))"

text \<open>
  \<^verbatim>\<open>initWebGL\<close> from \<^verbatim>\<open>programRef.current = program\<close> to \<^verbatim>\<open>setIsReady(true)\<close>, for the
  linked program \<open>p\<close>. The media texture is created only when the ref holds none; the atlas
  texture is created on every run. The vertex buffer of \<^verbatim>\<open>createFullscreenQuad\<close>, the
  texture storage and filters, and the viewport are not represented.
\<close>

definition installSession :: "options \<Rightarrow> env \<Rightarrow> layout \<Rightarrow> nat \<Rightarrow> state \<Rightarrow> state" where
  "installSession opts e l p s =
     (let s1 = s\<lparr>programRef := Some p, gl := useProgram p (gl s)\<rparr>;
          s2 = (case videoTextureRef s1 of
                  Some t \<Rightarrow> s1
                | None \<Rightarrow> (let (t, g) = createTexture (gl s1)
                           in s1\<lparr>videoTextureRef := Some t, gl := g\<rparr>));
          s3 = s2\<lparr>needsMipmapUpdateRef := (mediaType opts = Video)\<rparr>;
          (a, g) = createTexture (gl s3);
          s4 = s3\<lparr>atlasTextureRef := Some a, gl := g, uniformLocationsRef := Some p\<rparr>;
          s5 = s4\<lparr>gl := (gl s4)\<lparr>uniformValues :=
                                writeStaticUniforms opts e l (uniformValues (gl s4))\<rparr>\<rparr>
      in s5\<lparr>isReady := True\<rparr>)"

text \<open>
  \<^verbatim>\<open>initWebGL\<close>: the result and the state after the call. The canvas size set before
  the context is requested is not represented. The call of \<^verbatim>\<open>renderFrame\<close> for an image
  is taken with the same options.
\<close>

definition initWebGL :: "options \<Rightarrow> env \<Rightarrow> state \<Rightarrow> bool \<times> state" where
  "initWebGL opts e s =
     (if \<not> canvasPresent e
         \<or> \<not> (if mediaType opts = Video then videoPresent e else imagePresent e)
         \<or> \<not> containerPresent e
      then (False, s)
      else if mediaType opts = Video \<and> videoPresent e \<and> videoWidth e = 0 then (False, s)
      else if mediaType opts = Image \<and> imagePresent e
              \<and> (naturalWidth e = 0 \<or> \<not> imageComplete e)
      then (False, s)
      else
        let l = computeLayout opts e;
            s1 = s\<lparr>needsMipmapUpdateRef := True, dimensions := grid l\<rparr>
        in if \<not> webgl2Available e then (False, s1)
           else
             let s2 = s1\<lparr>glRef := True\<rparr>;
                 (vertexShader, g1) = compileShader (vertexCompiles e) (gl s2);
                 (fragmentShader, g2) = compileShader (fragmentCompiles e) g1;
                 s3 = s2\<lparr>gl := g2\<rparr>
             in if vertexShader = None \<or> fragmentShader = None then (False, s3)
                else
                  (case createProgram (programLinks e) (gl s3) of
                     (None, g3) \<Rightarrow> (False, s3\<lparr>gl := g3\<rparr>)
                   | (Some p, g3) \<Rightarrow>
                       let s4 = installSession opts e l p (s3\<lparr>gl := g3\<rparr>)
                       in (True, if mediaType opts = Image then renderFrame opts e s4 else s4)))"

subsection \<open>Event handlers and effects\<close>

definition handleLoadedMetadata :: "options \<Rightarrow> env \<Rightarrow> state \<Rightarrow> state" where
  "handleLoadedMetadata opts e s = snd (initWebGL opts e s)"

definition handlePlay :: "state \<Rightarrow> state" where
  "handlePlay s = scheduleRender (s\<lparr>isPlaying := True\<rparr>)"

definition handlePause :: "state \<Rightarrow> state" where
  "handlePause s = cancelAnimationFrame (animationRef s) (s\<lparr>isPlaying := False\<rparr>)"

definition handleEnded :: "state \<Rightarrow> state" where
  "handleEnded s = cancelAnimationFrame (animationRef s) (s\<lparr>isPlaying := False\<rparr>)"

text \<open>
  The cleanup of the video effect and of the image effect, after the listeners are
  removed.
\<close>

definition effectCleanup :: "state \<Rightarrow> state" where
  "effectCleanup s = cancelAnimationFrame (animationRef s) s"

definition handleImageLoad :: "options \<Rightarrow> env \<Rightarrow> state \<Rightarrow> state" where
  "handleImageLoad opts e s =
     (let s1 = snd (initWebGL opts e s)
      in if length (uniformSetters s1) > 0 then scheduleRender s1 else s1)"

text \<open>
  The body of the configuration effect and of the resize observer's callback: initialise
  again when the media is ready.
\<close>

definition reinitialize :: "options \<Rightarrow> env \<Rightarrow> state \<Rightarrow> state" where
  "reinitialize opts e s =
     (if mediaType opts = Video
      then (if videoPresent e \<and> videoReadyState e \<ge> 1 then snd (initWebGL opts e s) else s)
      else (if imagePresent e \<and> imageComplete e then snd (initWebGL opts e s) else s))"

text \<open>The cleanup on unmount: delete what the refs hold, cancel the request.\<close>

definition unmountCleanup :: "state \<Rightarrow> state" where
  "unmountCleanup s =
     (let g0 = gl s;
          g1 = (if glRef s
                then
                  let ga = (case videoTextureRef s of Some t \<Rightarrow> deleteTexture t g0 | None \<Rightarrow> g0);
                      gb = (case atlasTextureRef s of Some t \<Rightarrow> deleteTexture t ga | None \<Rightarrow> ga)
                  in (case programRef s of Some p \<Rightarrow> deleteProgram p gb | None \<Rightarrow> gb)
                else g0)
      in cancelAnimationFrame (animationRef s) (s\<lparr>gl := g1\<rparr>))"

subsection \<open>The browser running animation frames\<close>

text \<open>
  The browser runs the callback of request \<open>i\<close> once, if the request is pending; every
  request of the hook has \<^verbatim>\<open>render\<close> as its callback.
\<close>

definition frameTick :: "options \<Rightarrow> env \<Rightarrow> real \<times> real \<times> real \<Rightarrow> nat \<Rightarrow> state \<Rightarrow> state" where
  "frameTick opts e t i s =
     (if i \<in> pending s then render opts e t (s\<lparr>pending := pending s - {i}\<rparr>) else s)"

text \<open>Several frames in a row, each with its surroundings, clock readings and request.\<close>

fun frameTicks :: "options \<Rightarrow> (env \<times> (real \<times> real \<times> real) \<times> nat) list \<Rightarrow> state \<Rightarrow> state" where
  "frameTicks opts [] s = s"
| "frameTicks opts ((e, t, i) # ts) s = frameTicks opts ts (frameTick opts e t i s)"

text \<open>The loop while it runs: each frame runs the request \<^verbatim>\<open>animationRef\<close> holds.\<close>

fun runLoop :: "options \<Rightarrow> env \<Rightarrow> (real \<times> real \<times> real) list \<Rightarrow> state \<Rightarrow> state" where
  "runLoop opts e [] s = s"
| "runLoop opts e (t # ts) s = runLoop opts e ts (frameTick opts e t (animationRef s) s)"


subsection \<open>Sample inputs\<close>

definition sampleOptions :: options where
  "sampleOptions =
     \<lparr>fontSize = None, numColumns = Some 80, colored = True, blend = 50, highlight = 100,
      brightness = 1, dither = ''random'', chars = ['' '', ''.'', '':'', ''#''],
      maxWidth = None, mediaType = Video\<rparr>"

definition sampleEnv :: env where
  "sampleEnv =
     \<lparr>canvasPresent = True, containerPresent = True, clientWidth = 960, innerWidth = 1280,
      videoPresent = True, videoWidth = 640, videoHeight = 480, videoReadyState = 4,
      videoPaused = True, videoEnded = False,
      imagePresent = True, naturalWidth = 640, naturalHeight = 480, imageComplete = True,
      CHAR_WIDTH_RATIO = 3 / 5, cellAspectRatio = 1 / 2,
      webgl2Available = True, vertexCompiles = True, fragmentCompiles = True,
      programLinks = True\<rparr>"

section \<open>Auxiliary facts\<close>

subsection \<open>Splitting strings\<close>







subsection \<open>Rounding\<close>

lemma clamp_round_near:
  fixes x :: real
  assumes "0 < x"
  shows "\<bar>real_of_int (max 1 (round x)) - x\<bar> \<le> 1"
proof (cases "1 \<le> round x")
  case True
  have "\<bar>real_of_int (round x) - x\<bar> \<le> 1 / 2" by (rule of_int_round_abs_le)
  moreover from True have "max 1 (round x) = round x" by simp
  ultimately show ?thesis by simp
next
  case False
  have near: "\<bar>real_of_int (round x) - x\<bar> \<le> 1 / 2" by (rule of_int_round_abs_le)
  from False have "round x \<le> 0" by simp
  then have "real_of_int (round x) \<le> 0" by simp
  with near have "x \<le> 1 / 2" by linarith
  moreover from False have "max 1 (round x) = 1" by simp
  ultimately show ?thesis using assms by simp
qed

subsection \<open>The registry as a map\<close>

lemma mapDelete_mapSet: "mapDelete k (mapSet k v m) = mapDelete k m"
  by (induction m) (auto simp: mapDelete_def)

lemma mapSet_keys: "fst ` set (mapSet k v m) = insert k (fst ` set m)"
  by (induction m) force+

lemma distinct_mapSet: "distinct (map fst m) \<Longrightarrow> distinct (map fst (mapSet k v m))"
proof (induction m)
  case Nil
  then show ?case by simp
next
  case (Cons a m)
  have "fst ` set (mapSet k v m) = insert k (fst ` set m)" by (rule mapSet_keys)
  with Cons show ?case by (cases a) auto
qed

lemma distinct_mapDelete: "distinct (map fst m) \<Longrightarrow> distinct (map fst (mapDelete k m))"
  by (simp add: mapDelete_def distinct_map_filter)

lemma filter_key_absent: "k \<notin> fst ` set m \<Longrightarrow> filter (\<lambda>e. fst e = k) m = []"
  by (induction m) auto

lemma filter_mapSet:
  "distinct (map fst m) \<Longrightarrow> filter (\<lambda>e. fst e = k) (mapSet k v m) = [(k, v)]"
proof (induction m)
  case Nil
  then show ?case by simp
next
  case (Cons a m)
  then show ?case by (cases a) (auto simp: filter_key_absent)
qed

lemma mapDelete_absent: "k \<notin> fst ` set m \<Longrightarrow> mapDelete k m = m"
  by (induction m) (auto simp: mapDelete_def)

lemma mapDelete_keys: "k \<notin> fst ` set (mapDelete k m)"
  by (auto simp: mapDelete_def)

subsection \<open>The runs of \<^verbatim>\<open>initWebGL\<close>\<close>

lemma initWebGL_fst:
  "fst (initWebGL opts e s) \<longleftrightarrow>
     canvasPresent e \<and> containerPresent e
     \<and> (if mediaType opts = Video then videoPresent e \<and> videoWidth e \<noteq> 0
        else imagePresent e \<and> naturalWidth e \<noteq> 0 \<and> imageComplete e)
     \<and> webgl2Available e \<and> vertexCompiles e \<and> fragmentCompiles e \<and> programLinks e"
  apply (cases "mediaType opts")
   apply (simp_all add: initWebGL_def compileShader_def createProgram_def Let_def)
   apply blast+
  done

lemma initWebGL_ok:
  assumes "fst (initWebGL opts e s)"
  shows "snd (initWebGL opts e s) =
     (let g = gl s;
          s3 = s\<lparr>needsMipmapUpdateRef := True, dimensions := grid (computeLayout opts e),
                 glRef := True,
                 gl := g\<lparr>shaders := insert (Suc (nextObject g)) (insert (nextObject g) (shaders g)),
                         programs := insert (Suc (Suc (nextObject g))) (programs g),
                         nextObject := Suc (Suc (Suc (nextObject g)))\<rparr>\<rparr>;
          s4 = installSession opts e (computeLayout opts e) (Suc (Suc (nextObject g))) s3
      in if mediaType opts = Image then renderFrame opts e s4 else s4)"
proof -
  from assms have c: "canvasPresent e" "containerPresent e" "webgl2Available e"
    "vertexCompiles e" "fragmentCompiles e" "programLinks e"
    "mediaType opts = Video \<Longrightarrow> videoPresent e \<and> videoWidth e \<noteq> 0"
    "mediaType opts \<noteq> Video \<Longrightarrow> imagePresent e \<and> naturalWidth e \<noteq> 0 \<and> imageComplete e"
    unfolding initWebGL_fst by (simp_all split: if_splits)
  show ?thesis
    by (cases "mediaType opts")
       (use c in \<open>simp_all add: initWebGL_def compileShader_def createProgram_def Let_def\<close>)
qed

lemma initWebGL_fail:
  assumes "\<not> fst (initWebGL opts e s)"
  shows "snd (initWebGL opts e s) = s
       \<or> snd (initWebGL opts e s) =
           s\<lparr>needsMipmapUpdateRef := True, dimensions := grid (computeLayout opts e)\<rparr>
       \<or> snd (initWebGL opts e s) =
           s\<lparr>needsMipmapUpdateRef := True, dimensions := grid (computeLayout opts e),
             glRef := True,
             gl := snd (compileShader (fragmentCompiles e)
                         (snd (compileShader (vertexCompiles e) (gl s))))\<rparr>"
proof (cases "mediaType opts")
  case Video
  show ?thesis
  proof (cases "canvasPresent e \<and> containerPresent e \<and> videoPresent e \<and> videoWidth e \<noteq> 0")
    case False
    then show ?thesis using Video by (auto simp: initWebGL_def)
  next
    case a: True
    show ?thesis
    proof (cases "webgl2Available e")
      case False
      then show ?thesis using Video a by (simp add: initWebGL_def Let_def)
    next
      case w: True
      from assms Video a w have "\<not> (vertexCompiles e \<and> fragmentCompiles e \<and> programLinks e)"
        unfolding initWebGL_fst by simp
      then show ?thesis using Video a w
        by (simp add: initWebGL_def Let_def compileShader_def createProgram_def split: if_splits)
    qed
  qed
next
  case Image
  show ?thesis
  proof (cases "canvasPresent e \<and> containerPresent e \<and> imagePresent e
                 \<and> naturalWidth e \<noteq> 0 \<and> imageComplete e")
    case False
    then show ?thesis using Image by (auto simp: initWebGL_def)
  next
    case a: True
    show ?thesis
    proof (cases "webgl2Available e")
      case False
      then show ?thesis using Image a by (simp add: initWebGL_def Let_def)
    next
      case w: True
      from assms Image a w have "\<not> (vertexCompiles e \<and> fragmentCompiles e \<and> programLinks e)"
        unfolding initWebGL_fst by simp
      then show ?thesis using Image a w
        by (simp add: initWebGL_def Let_def compileShader_def createProgram_def split: if_splits)
    qed
  qed
qed

lemma initWebGL_keeps:
  "pending (snd (initWebGL opts e s)) = pending s
   \<and> animationRef (snd (initWebGL opts e s)) = animationRef s
   \<and> nextFrameId (snd (initWebGL opts e s)) = nextFrameId s
   \<and> uniformSetters (snd (initWebGL opts e s)) = uniformSetters s
   \<and> frameTimes (snd (initWebGL opts e s)) = frameTimes s
   \<and> emitted (snd (initWebGL opts e s)) = emitted s"
proof (cases "fst (initWebGL opts e s)")
  case True
  then show ?thesis
    by (simp add: initWebGL_ok installSession_def renderFrame_def drawFrame_def Let_def
        split: option.splits prod.splits)
next
  case False
  from initWebGL_fail[OF this] show ?thesis by (elim disjE) simp_all
qed

subsection \<open>The runs of \<^verbatim>\<open>render\<close>\<close>

lemma scheduleRender_fields:
  "pending (scheduleRender s) = insert (nextFrameId s) (pending s)"
  "animationRef (scheduleRender s) = nextFrameId s"
  "nextFrameId (scheduleRender s) = Suc (nextFrameId s)"
  "gl (scheduleRender s) = gl s"
  "frameTimes (scheduleRender s) = frameTimes s"
  "emitted (scheduleRender s) = emitted s"
  "lastFpsTime (scheduleRender s) = lastFpsTime s"
  "glRef (scheduleRender s) = glRef s"
  "programRef (scheduleRender s) = programRef s"
  "uniformLocationsRef (scheduleRender s) = uniformLocationsRef s"
  "uniformSetters (scheduleRender s) = uniformSetters s"
  by (simp_all add: scheduleRender_def requestAnimationFrame_def)

lemma trackPerformance_fields:
  "pending (trackPerformance a b c s) = pending s"
  "animationRef (trackPerformance a b c s) = animationRef s"
  "nextFrameId (trackPerformance a b c s) = nextFrameId s"
  "gl (trackPerformance a b c s) = gl s"
  "glRef (trackPerformance a b c s) = glRef s"
  "programRef (trackPerformance a b c s) = programRef s"
  "uniformLocationsRef (trackPerformance a b c s) = uniformLocationsRef s"
  "uniformSetters (trackPerformance a b c s) = uniformSetters s"
  by (simp_all add: trackPerformance_def Let_def)

lemma drawFrame_fields:
  "pending (drawFrame opts s) = pending s"
  "animationRef (drawFrame opts s) = animationRef s"
  "nextFrameId (drawFrame opts s) = nextFrameId s"
  "glRef (drawFrame opts s) = glRef s"
  "programRef (drawFrame opts s) = programRef s"
  "uniformLocationsRef (drawFrame opts s) = uniformLocationsRef s"
  "uniformSetters (drawFrame opts s) = uniformSetters s"
  "frameTimes (drawFrame opts s) = frameTimes s"
  "frameCount (drawFrame opts s) = frameCount s"
  "emitted (drawFrame opts s) = emitted s"
  "lastFpsTime (drawFrame opts s) = lastFpsTime s"
  "drawn (gl (drawFrame opts s)) =
     drawn (gl s) @ [applySetters (uniformSetters s)
                       (writeFrameUniforms opts (uniformValues (gl s)))]"
  by (simp_all add: drawFrame_def drawArrays_def)

lemma render_skip:
  assumes "\<not> glRef s \<or> programRef s = None \<or> uniformLocationsRef s = None
           \<or> \<not> (if mediaType opts = Video then videoPresent e else imagePresent e)
           \<or> (mediaType opts = Video \<and> (videoPaused e \<or> videoEnded e))"
  shows "render opts e t s = s"
  using assms by (auto simp: render_def)

lemma render_run:
  assumes "glRef s" "programRef s \<noteq> None" "uniformLocationsRef s \<noteq> None"
    and "if mediaType opts = Video then videoPresent e \<and> \<not> videoPaused e \<and> \<not> videoEnded e
         else imagePresent e"
  shows "render opts e (a, b, c) s =
           scheduleRender (trackPerformance a b c
             (drawFrame opts (if mediaType opts = Video
                              then s\<lparr>needsMipmapUpdateRef := False\<rparr> else s)))"
proof -
  have eq: "(if mediaType opts = Video \<and> needsMipmapUpdateRef s
             then s\<lparr>needsMipmapUpdateRef := False\<rparr> else s)
          = (if mediaType opts = Video then s\<lparr>needsMipmapUpdateRef := False\<rparr> else s)"
    by (cases "needsMipmapUpdateRef s") simp_all
  have "render opts e (a, b, c) s =
          scheduleRender (trackPerformance a b c
             (drawFrame opts (if mediaType opts = Video \<and> needsMipmapUpdateRef s
             then s\<lparr>needsMipmapUpdateRef := False\<rparr> else s)))"
    using assms by (cases "mediaType opts") (auto simp: render_def Let_def)
  then show ?thesis unfolding eq .
qed

text \<open>
  A run of \<^verbatim>\<open>render\<close> either returns early or draws one frame and requests the next.
\<close>

lemma render_cases:
  obtains (skip) "render opts e t s = s"
  | (run) a b c where "t = (a, b, c)"
      "glRef s" "programRef s \<noteq> None" "uniformLocationsRef s \<noteq> None"
      "if mediaType opts = Video then videoPresent e \<and> \<not> videoPaused e \<and> \<not> videoEnded e
       else imagePresent e"
      "render opts e t s =
         scheduleRender (trackPerformance a b c
           (drawFrame opts (if mediaType opts = Video
                            then s\<lparr>needsMipmapUpdateRef := False\<rparr> else s)))"
proof (cases "glRef s \<and> programRef s \<noteq> None \<and> uniformLocationsRef s \<noteq> None
     \<and> (if mediaType opts = Video then videoPresent e \<and> \<not> videoPaused e \<and> \<not> videoEnded e
         else imagePresent e)")
  case True
  obtain a b c where t: "t = (a, b, c)" by (cases t)
  from True have "render opts e (a, b, c) s =
           scheduleRender (trackPerformance a b c
             (drawFrame opts (if mediaType opts = Video
                              then s\<lparr>needsMipmapUpdateRef := False\<rparr> else s)))"
    by (intro render_run) simp_all
  with True t show ?thesis by (intro run[of a b c]) simp_all
next
  case False
  then have "render opts e t s = s"
    by (intro render_skip) (auto split: if_splits)
  then show ?thesis by (rule skip)
qed


subsection \<open>The loop of a video\<close>


lemma frameTicks_idle: "pending s = {} \<Longrightarrow> frameTicks opts ticks s = s"
  by (induction ticks) (auto simp: frameTick_def)

subsection \<open>Evaluating the model on the sample inputs\<close>

lemmas eval_defs = initWebGL_def installSession_def computeLayout_def calculateGridDimensions_def
  calculatedFontSize_def givenColumns_def orElse_def writeStaticUniforms_def ditherModeValue_def
  compileShader_def createProgram_def createTexture_def useProgram_def drawArrays_def
  deleteTexture_def deleteProgram_def renderFrame_def drawFrame_def writeFrameUniforms_def
  applySetters_def render_def trackPerformance_def scheduleRender_def requestAnimationFrame_def
  cancelAnimationFrame_def frameTick_def handlePlay_def handlePause_def handleEnded_def
  effectCleanup_def unmountCleanup_def handleImageLoad_def reinitialize_def
  registerUniformSetter_def unregisterUniformSetter_def mapDelete_def
  initialState_def sampleOptions_def sampleEnv_def Let_def

section \<open>Grid sizing\<close>

text \<open>
  C5. For positive media width, media height and target column count (and a positive
  character cell aspect ratio), the grid has as many columns as were asked for, and its row
  count is \<open>round (targetColumns * (mediaH / mediaW) / ratio)\<close> clamped to at least 1, which is
  at least 1 and differs from the ideal value \<open>targetColumns * (mediaH / mediaW) / ratio\<close> by
  at most 1. For a 640 by 480 medium, 80 columns and a ratio of 0.5 there are 120 rows.
\<close>

theorem grid_rows_within_one:
  assumes "0 < mediaW" and "0 < mediaH" and "0 < targetColumns" and "0 < r"
  shows "cols (calculateGridDimensions r mediaW mediaH targetColumns) = targetColumns
       \<and> rows (calculateGridDimensions r mediaW mediaH targetColumns)
           = max 1 (round (real_of_int targetColumns * (real mediaH / real mediaW) / r))
       \<and> 1 \<le> rows (calculateGridDimensions r mediaW mediaH targetColumns)
       \<and> \<bar>real_of_int (rows (calculateGridDimensions r mediaW mediaH targetColumns))
            - real_of_int targetColumns * (real mediaH / real mediaW) / r\<bar> \<le> 1
       \<and> rows (calculateGridDimensions (1 / 2) 640 480 80) = 120"
proof -
  have pos: "0 < real_of_int targetColumns * (real mediaH / real mediaW) / r"
    using assms by simp
  have ex: "rows (calculateGridDimensions (1 / 2) 640 480 80) = 120"
    by (simp add: calculateGridDimensions_def)
  show ?thesis
    unfolding calculateGridDimensions_def
    using clamp_round_near[OF pos] ex[unfolded calculateGridDimensions_def]
    by (simp del: of_int_max)
qed

theorem grid_rows_within_one_witness:
  "cols (calculateGridDimensions (3 / 5) 1920 1080 100) = 100
   \<and> rows (calculateGridDimensions (3 / 5) 1920 1080 100) = 94
   \<and> \<bar>real_of_int (rows (calculateGridDimensions (3 / 5) 1920 1080 100)) - 375 / 4\<bar> \<le> 1"
  using grid_rows_within_one[of 1920 1080 100 "3 / 5"]
  by (simp add: calculateGridDimensions_def round_def)

section \<open>Media type detection\<close>



section \<open>An image: one frame, or the loop\<close>

lemma initWebGL_image_session:
  assumes "mediaType opts = Image" and "fst (initWebGL opts e s)"
  shows "glRef (snd (initWebGL opts e s)) \<and> programRef (snd (initWebGL opts e s)) \<noteq> None
       \<and> uniformLocationsRef (snd (initWebGL opts e s)) \<noteq> None \<and> imagePresent e
       \<and> length (drawn (gl (snd (initWebGL opts e s)))) = length (drawn (gl s)) + 1"
proof -
  from assms have i: "imagePresent e" unfolding initWebGL_fst by simp
  show ?thesis using assms i
    by (simp add: initWebGL_ok installSession_def renderFrame_def drawFrame_def drawArrays_def
        createTexture_def useProgram_def Let_def split: option.splits prod.splits)
qed

lemma image_tick:
  assumes "mediaType opts = Image" "imagePresent e" "glRef s" "programRef s \<noteq> None"
    "uniformLocationsRef s \<noteq> None" "animationRef s \<in> pending s"
  shows "glRef (frameTick opts e t (animationRef s) s)
       \<and> programRef (frameTick opts e t (animationRef s) s) \<noteq> None
       \<and> uniformLocationsRef (frameTick opts e t (animationRef s) s) \<noteq> None
       \<and> animationRef (frameTick opts e t (animationRef s) s)
            \<in> pending (frameTick opts e t (animationRef s) s)
       \<and> length (drawn (gl (frameTick opts e t (animationRef s) s))) = length (drawn (gl s)) + 1"
proof -
  obtain a b c where t: "t = (a, b, c)" by (cases t)
  let ?s0 = "s\<lparr>pending := pending s - {animationRef s}\<rparr>"
  have "render opts e (a, b, c) ?s0 =
          scheduleRender (trackPerformance a b c
            (drawFrame opts (if mediaType opts = Video
                             then ?s0\<lparr>needsMipmapUpdateRef := False\<rparr> else ?s0)))"
    using assms by (intro render_run) simp_all
  then show ?thesis using assms unfolding t
    by (simp add: frameTick_def scheduleRender_fields trackPerformance_fields drawFrame_fields)
qed

lemma image_loop:
  assumes "mediaType opts = Image" "imagePresent e"
  shows "glRef s \<Longrightarrow> programRef s \<noteq> None \<Longrightarrow> uniformLocationsRef s \<noteq> None \<Longrightarrow>
         animationRef s \<in> pending s \<Longrightarrow>
         length (drawn (gl (runLoop opts e ts s))) = length (drawn (gl s)) + length ts
         \<and> animationRef (runLoop opts e ts s) \<in> pending (runLoop opts e ts s)"
proof (induction ts arbitrary: s)
  case Nil
  then show ?case by simp
next
  case (Cons t ts)
  from image_tick[OF assms Cons.prems, of t] Cons.IH[of "frameTick opts e t (animationRef s) s"]
  show ?case by simp
qed

text \<open>
  C3. For an image whose initialisation succeeds, the load handler draws exactly one frame.
  With no uniform setter registered at load time it requests no animation frame: the
  pending requests, the request counter and \<^verbatim>\<open>animationRef\<close> are as before, and with no
  request pending no later frame changes the state. With at least one setter registered it
  requests a frame, and the loop keeps running: after any number of frames, each running
  the request \<^verbatim>\<open>animationRef\<close> holds, that many more frames have been drawn and the next
  request is pending.
\<close>

theorem image_renders_once_or_loops:
  assumes "mediaType opts = Image" and "fst (initWebGL opts e s)"
  shows "length (drawn (gl (handleImageLoad opts e s))) = length (drawn (gl s)) + 1
       \<and> (uniformSetters s = [] \<longrightarrow>
            pending (handleImageLoad opts e s) = pending s
            \<and> nextFrameId (handleImageLoad opts e s) = nextFrameId s
            \<and> animationRef (handleImageLoad opts e s) = animationRef s)
       \<and> (uniformSetters s = [] \<and> pending s = {} \<longrightarrow>
            frameTicks opts ticks (handleImageLoad opts e s) = handleImageLoad opts e s)
       \<and> (uniformSetters s \<noteq> [] \<longrightarrow>
            animationRef (handleImageLoad opts e s) \<in> pending (handleImageLoad opts e s)
            \<and> length (drawn (gl (runLoop opts e ts (handleImageLoad opts e s))))
                = length (drawn (gl s)) + 1 + length ts
            \<and> animationRef (runLoop opts e ts (handleImageLoad opts e s))
                \<in> pending (runLoop opts e ts (handleImageLoad opts e s)))"
proof -
  let ?s1 = "snd (initWebGL opts e s)"
  note k = initWebGL_keeps[of opts e s]
  note i = initWebGL_image_session[OF assms]
  show ?thesis
  proof (cases "uniformSetters s = []")
    case True
    then have h: "handleImageLoad opts e s = ?s1" using k by (simp add: handleImageLoad_def)
    show ?thesis unfolding h using True k i by (simp add: frameTicks_idle)
  next
    case False
    then have h: "handleImageLoad opts e s = scheduleRender ?s1"
      using k by (simp add: handleImageLoad_def)
    have a: "animationRef (scheduleRender ?s1) \<in> pending (scheduleRender ?s1)"
      by (simp add: scheduleRender_fields)
    from image_loop[OF assms(1), of e "scheduleRender ?s1" ts] i a
    have "length (drawn (gl (runLoop opts e ts (scheduleRender ?s1))))
            = length (drawn (gl (scheduleRender ?s1))) + length ts
          \<and> animationRef (runLoop opts e ts (scheduleRender ?s1))
            \<in> pending (runLoop opts e ts (scheduleRender ?s1))"
      by (simp add: scheduleRender_fields)
    then show ?thesis unfolding h using False i a by (simp add: scheduleRender_fields)
  qed
qed

theorem image_renders_once_or_loops_witness:
  "length (drawn (gl (handleImageLoad (sampleOptions\<lparr>mediaType := Image\<rparr>) sampleEnv
                        (initialState 0)))) = 1
   \<and> pending (handleImageLoad (sampleOptions\<lparr>mediaType := Image\<rparr>) sampleEnv
                 (initialState 0)) = {}
   \<and> length (drawn (gl (runLoop (sampleOptions\<lparr>mediaType := Image\<rparr>) sampleEnv
                          [(0, 1, 2), (16, 17, 18)]
                          (handleImageLoad (sampleOptions\<lparr>mediaType := Image\<rparr>) sampleEnv
                             (registerUniformSetter ''mouse'' (\<lambda>u. u(U_mouseRadius \<mapsto> UFloat 3))
                                (initialState 0)))))) = 3"
proof -
  have i: "mediaType (sampleOptions\<lparr>mediaType := Image\<rparr>) = Image" by simp
  have ok: "fst (initWebGL (sampleOptions\<lparr>mediaType := Image\<rparr>) sampleEnv s)" for s
    unfolding initWebGL_fst by (simp add: sampleOptions_def sampleEnv_def)
  show ?thesis
    using image_renders_once_or_loops[OF i ok, of "initialState 0" "[]" "[]"]
      image_renders_once_or_loops[OF i ok,
        of "registerUniformSetter ''mouse'' (\<lambda>u. u(U_mouseRadius \<mapsto> UFloat 3)) (initialState 0)"
           "[]" "[(0, 1, 2), (16, 17, 18)]"]
    by (simp add: initialState_def registerUniformSetter_def)
qed

section \<open>Frame statistics\<close>

lemma trackPerformance_history:
  "length (frameTimes s) \<le> 60 \<Longrightarrow> length (frameTimes (trackPerformance a b c s)) \<le> 60"
  by (simp add: trackPerformance_def Let_def)

lemma render_history:
  assumes "length (frameTimes s) \<le> 60"
  shows "length (frameTimes (render opts e t s)) \<le> 60"
proof (cases rule: render_cases[of opts e t s])
  case skip
  then show ?thesis using assms by simp
next
  case (run a b c)
  have "length (frameTimes (drawFrame opts (if mediaType opts = Video
          then s\<lparr>needsMipmapUpdateRef := False\<rparr> else s))) \<le> 60"
    using assms by (simp add: drawFrame_fields)
  from trackPerformance_history[OF this] run(6) show ?thesis
    by (simp add: scheduleRender_fields)
qed

lemma frameTicks_history:
  "length (frameTimes s) \<le> 60 \<Longrightarrow> length (frameTimes (frameTicks opts ticks s)) \<le> 60"
proof (induction ticks arbitrary: s)
  case Nil
  then show ?case by simp
next
  case (Cons x ticks)
  obtain e t i where x: "x = (e, t, i)" by (cases x)
  have "length (frameTimes (frameTick opts e t i s)) \<le> 60"
    using Cons.prems render_history[of "s\<lparr>pending := pending s - {i}\<rparr>" opts e t]
    by (simp add: frameTick_def)
  from Cons.IH[OF this] show ?case unfolding x by simp
qed

text \<open>
  C9. If the history of frame times holds at most 60 samples, it holds at most 60 after a
  run of \<^verbatim>\<open>render\<close> and after any sequence of frames; it starts empty, so it holds at
  most 60 after any sequence of frames from the state on mount. A run of
  \<^verbatim>\<open>render\<close> emits a statistics snapshot exactly when it draws a frame and at least
  1000 ms have passed since \<^verbatim>\<open>lastFpsTimeRef\<close>, which is the time of the last snapshot
  (the time of mount before the first): the snapshot holds the frame count and the mean of
  the retained frame times, and \<^verbatim>\<open>lastFpsTimeRef\<close> becomes the current time.
\<close>

theorem frame_history_bounded_stats_each_second:
  assumes "length (frameTimes s) \<le> 60"
  shows "length (frameTimes (render opts e (a, b, now) s)) \<le> 60
       \<and> length (frameTimes (frameTicks opts ticks s)) \<le> 60
       \<and> length (frameTimes (frameTicks opts ticks (initialState t0))) \<le> 60
       \<and> emitted (render opts e (a, b, now) s) =
           (if drawn (gl (render opts e (a, b, now) s)) \<noteq> drawn (gl s)
               \<and> 1000 \<le> now - lastFpsTime s
            then emitted s @
                 [\<lparr>fps = frameCount s + 1,
                   frameTime = sum_list (frameTimes (render opts e (a, b, now) s))
                               / real (length (frameTimes (render opts e (a, b, now) s)))\<rparr>]
            else emitted s)
       \<and> lastFpsTime (render opts e (a, b, now) s) =
           (if drawn (gl (render opts e (a, b, now) s)) \<noteq> drawn (gl s)
               \<and> 1000 \<le> now - lastFpsTime s
            then now else lastFpsTime s)"
proof -
  have em: "emitted (render opts e (a, b, now) s) =
           (if drawn (gl (render opts e (a, b, now) s)) \<noteq> drawn (gl s)
               \<and> 1000 \<le> now - lastFpsTime s
            then emitted s @
                 [\<lparr>fps = frameCount s + 1,
                   frameTime = sum_list (frameTimes (render opts e (a, b, now) s))
                               / real (length (frameTimes (render opts e (a, b, now) s)))\<rparr>]
            else emitted s)
       \<and> lastFpsTime (render opts e (a, b, now) s) =
           (if drawn (gl (render opts e (a, b, now) s)) \<noteq> drawn (gl s)
               \<and> 1000 \<le> now - lastFpsTime s
            then now else lastFpsTime s)"
  proof (cases rule: render_cases[of opts e "(a, b, now)" s])
    case skip
    then show ?thesis by simp
  next
    case (run a' b' c')
    then have abc: "a' = a" "b' = b" "c' = now" by simp_all
    show ?thesis unfolding run(6) abc
      by (simp add: scheduleRender_fields trackPerformance_fields drawFrame_fields)
         (simp add: trackPerformance_def drawFrame_def Let_def)
  qed
  have init: "length (frameTimes (frameTicks opts ticks (initialState t0))) \<le> 60"
    by (rule frameTicks_history) (simp add: initialState_def)
  show ?thesis using em render_history[OF assms] frameTicks_history[OF assms] init by simp
qed


theorem frame_history_bounded_stats_each_second_witness:
  "length (frameTimes (render sampleOptions (sampleEnv\<lparr>videoPaused := False\<rparr>) (2000, 2004, 2005)
             ((snd (initWebGL sampleOptions sampleEnv (initialState 0)))
                \<lparr>frameTimes := replicate 60 4\<rparr>))) \<le> 60
   \<and> emitted (render sampleOptions (sampleEnv\<lparr>videoPaused := False\<rparr>) (2000, 2004, 2005)
                ((snd (initWebGL sampleOptions sampleEnv (initialState 0)))
                   \<lparr>frameTimes := replicate 60 4\<rparr>))
       = [\<lparr>fps = 1, frameTime = 4\<rparr>]
   \<and> emitted (render sampleOptions (sampleEnv\<lparr>videoPaused := False\<rparr>) (500, 504, 505)
                ((snd (initWebGL sampleOptions sampleEnv (initialState 0)))
                   \<lparr>frameTimes := replicate 60 4\<rparr>)) = []"
proof -
  let ?s = "(snd (initWebGL sampleOptions sampleEnv (initialState 0)))\<lparr>frameTimes := replicate 60 4\<rparr>"
  have h: "length (frameTimes ?s) \<le> 60" by simp
  from frame_history_bounded_stats_each_second[OF h, of sampleOptions "sampleEnv\<lparr>videoPaused := False\<rparr>" 2000 2004 2005 "[]"]
  have a: "length (frameTimes (render sampleOptions (sampleEnv\<lparr>videoPaused := False\<rparr>) (2000, 2004, 2005) ?s)) \<le> 60"
    by simp
  have b: "emitted (render sampleOptions (sampleEnv\<lparr>videoPaused := False\<rparr>) (2000, 2004, 2005) ?s)
       = [\<lparr>fps = 1, frameTime = 4\<rparr>]"
    by (simp add: eval_defs sum_list_replicate)
  have c: "emitted (render sampleOptions (sampleEnv\<lparr>videoPaused := False\<rparr>) (500, 504, 505) ?s) = []"
    by (simp add: eval_defs)
  show ?thesis using a b c by simp
qed

section \<open>Per-frame uniforms\<close>

lemma applySetters_keeps:
  "\<forall>(i, f) \<in> set m. \<forall>u. f u n = u n \<Longrightarrow> applySetters m u n = u n"
proof (induction m arbitrary: u)
  case Nil
  then show ?case by (simp add: applySetters_def)
next
  case (Cons a m)
  obtain i f where a: "a = (i, f)" by (cases a)
  from Cons.prems have f: "f u n = u n" and rest: "\<forall>(i, f) \<in> set m. \<forall>u. f u n = u n"
    unfolding a by auto
  have "applySetters (a # m) u n = applySetters m (f u) n"
    unfolding a by (simp add: applySetters_def)
  also have "\<dots> = f u n" by (rule Cons.IH[OF rest])
  finally show ?case using f by simp
qed

lemma render_drawn:
  "drawn (gl (render opts e t s)) = drawn (gl s)
   \<or> drawn (gl (render opts e t s)) =
        drawn (gl s) @ [applySetters (uniformSetters s)
                          (writeFrameUniforms opts (uniformValues (gl s)))]"
proof (cases rule: render_cases[of opts e t s])
  case skip
  then show ?thesis by simp
next
  case (run a b c)
  then show ?thesis
    by (simp add: scheduleRender_fields trackPerformance_fields drawFrame_fields)
qed

lemma renderFrame_drawn:
  "drawn (gl (renderFrame opts e s)) = drawn (gl s)
   \<or> drawn (gl (renderFrame opts e s)) =
        drawn (gl s) @ [applySetters (uniformSetters s)
                          (writeFrameUniforms opts (uniformValues (gl s)))]"
  by (simp add: renderFrame_def drawFrame_fields)

lemma frame_blend:
  assumes "\<forall>(i, f) \<in> set m. \<forall>u. f u U_blend = u U_blend"
  shows "applySetters m (writeFrameUniforms opts u) U_blend = Some (UFloat (blend opts / 100))"
  using applySetters_keeps[OF assms] by (simp add: writeFrameUniforms_def)

lemma frame_highlight:
  assumes "\<forall>(i, f) \<in> set m. \<forall>u. f u U_highlight = u U_highlight"
  shows "applySetters m (writeFrameUniforms opts u) U_highlight
           = Some (UFloat (highlight opts / 100))"
  using applySetters_keeps[OF assms] by (simp add: writeFrameUniforms_def)

lemma frame_dither:
  assumes "\<forall>(i, f) \<in> set m. \<forall>u. f u U_ditherMode = u U_ditherMode"
  shows "applySetters m (writeFrameUniforms opts u) U_ditherMode = u U_ditherMode"
  using applySetters_keeps[OF assms] by (simp add: writeFrameUniforms_def)

lemma initWebGL_dither:
  assumes ok: "fst (initWebGL opts e s)"
    and keep: "\<forall>(i, f) \<in> set (uniformSetters s). \<forall>u. f u U_ditherMode = u U_ditherMode"
  shows "uniformValues (gl (snd (initWebGL opts e s))) U_ditherMode
           = Some (UFloat (ditherModeValue (dither opts)))"
proof (cases "mediaType opts")
  case Video
  then show ?thesis using ok
    by (simp add: initWebGL_ok installSession_def createTexture_def useProgram_def
        writeStaticUniforms_def Let_def split: option.splits prod.splits)
next
  case Image
  from ok Image have i: "imagePresent e" unfolding initWebGL_fst by simp
  show ?thesis using ok Image i frame_dither[OF keep]
    by (simp add: initWebGL_ok installSession_def createTexture_def useProgram_def
        renderFrame_def drawFrame_def drawArrays_def
        writeStaticUniforms_def Let_def split: option.splits prod.splits)
qed

text \<open>
  C6. Every frame drawn by \<^verbatim>\<open>render\<close> or \<^verbatim>\<open>renderFrame\<close> is drawn after
  \<^verbatim>\<open>u_blend\<close> has been written with the blend option divided by 100 and
  \<^verbatim>\<open>u_highlight\<close> with the highlight option divided by 100: the frame's uniforms are
  the result of the registered setters on values with these two entries, and where the
  setters leave the two uniforms alone (the registry's convention) the frame is drawn with
  exactly these values. A successful initialisation leaves \<^verbatim>\<open>u_ditherMode\<close> at 1 for
  \<^verbatim>\<open>"bayer"\<close>, 2 for \<^verbatim>\<open>"random"\<close> and 0 for every other dither option; for an image,
  whose first frame is drawn within the initialisation, this holds where the setters leave
  that uniform alone.
\<close>

theorem blend_highlight_dither_uniforms:
  "(\<forall>u \<in> set (drop (length (drawn (gl s))) (drawn (gl (render opts e t s))))
           \<union> set (drop (length (drawn (gl s))) (drawn (gl (renderFrame opts e s)))).
      \<exists>w. u = applySetters (uniformSetters s) w
          \<and> w U_blend = Some (UFloat (blend opts / 100))
          \<and> w U_highlight = Some (UFloat (highlight opts / 100)))
   \<and> ((\<forall>(i, f) \<in> set (uniformSetters s).
          \<forall>u. f u U_blend = u U_blend \<and> f u U_highlight = u U_highlight) \<longrightarrow>
       (\<forall>u \<in> set (drop (length (drawn (gl s))) (drawn (gl (render opts e t s))))
              \<union> set (drop (length (drawn (gl s))) (drawn (gl (renderFrame opts e s)))).
          u U_blend = Some (UFloat (blend opts / 100))
          \<and> u U_highlight = Some (UFloat (highlight opts / 100))))
   \<and> (fst (initWebGL opts e s)
        \<and> (mediaType opts = Video
            \<or> (\<forall>(i, f) \<in> set (uniformSetters s). \<forall>u. f u U_ditherMode = u U_ditherMode)) \<longrightarrow>
       uniformValues (gl (snd (initWebGL opts e s))) U_ditherMode =
         Some (UFloat (if dither opts = ''bayer'' then 1
                       else if dither opts = ''random'' then 2 else 0)))"
proof -
  let ?w = "writeFrameUniforms opts (uniformValues (gl s))"
  have w: "?w U_blend = Some (UFloat (blend opts / 100))"
    "?w U_highlight = Some (UFloat (highlight opts / 100))"
    by (simp_all add: writeFrameUniforms_def)
  have mem: "u = applySetters (uniformSetters s) ?w"
    if "u \<in> set (drop (length (drawn (gl s))) (drawn (gl (render opts e t s))))
           \<union> set (drop (length (drawn (gl s))) (drawn (gl (renderFrame opts e s))))" for u
    using that render_drawn[of opts e t s] renderFrame_drawn[of opts e s] by auto
  have a: "\<forall>u \<in> set (drop (length (drawn (gl s))) (drawn (gl (render opts e t s))))
           \<union> set (drop (length (drawn (gl s))) (drawn (gl (renderFrame opts e s)))).
      \<exists>w. u = applySetters (uniformSetters s) w
          \<and> w U_blend = Some (UFloat (blend opts / 100))
          \<and> w U_highlight = Some (UFloat (highlight opts / 100))"
    using mem w by blast
  have b: "(\<forall>(i, f) \<in> set (uniformSetters s).
          \<forall>u. f u U_blend = u U_blend \<and> f u U_highlight = u U_highlight) \<longrightarrow>
       (\<forall>u \<in> set (drop (length (drawn (gl s))) (drawn (gl (render opts e t s))))
              \<union> set (drop (length (drawn (gl s))) (drawn (gl (renderFrame opts e s)))).
          u U_blend = Some (UFloat (blend opts / 100))
          \<and> u U_highlight = Some (UFloat (highlight opts / 100)))"
  proof (intro impI ballI)
    fix u
    assume k: "\<forall>(i, f) \<in> set (uniformSetters s).
          \<forall>u. f u U_blend = u U_blend \<and> f u U_highlight = u U_highlight"
      and u: "u \<in> set (drop (length (drawn (gl s))) (drawn (gl (render opts e t s))))
              \<union> set (drop (length (drawn (gl s))) (drawn (gl (renderFrame opts e s))))"
    from k have kb: "\<forall>(i, f) \<in> set (uniformSetters s). \<forall>u. f u U_blend = u U_blend"
      and kh: "\<forall>(i, f) \<in> set (uniformSetters s). \<forall>u. f u U_highlight = u U_highlight"
      by auto
    show "u U_blend = Some (UFloat (blend opts / 100))
          \<and> u U_highlight = Some (UFloat (highlight opts / 100))"
      unfolding mem[OF u] using frame_blend[OF kb] frame_highlight[OF kh] by simp
  qed
  have c: "fst (initWebGL opts e s)
        \<and> (mediaType opts = Video
            \<or> (\<forall>(i, f) \<in> set (uniformSetters s). \<forall>u. f u U_ditherMode = u U_ditherMode)) \<longrightarrow>
       uniformValues (gl (snd (initWebGL opts e s))) U_ditherMode =
         Some (UFloat (if dither opts = ''bayer'' then 1
                       else if dither opts = ''random'' then 2 else 0))"
  proof (intro impI, elim conjE)
    assume ok: "fst (initWebGL opts e s)"
      and k: "mediaType opts = Video
            \<or> (\<forall>(i, f) \<in> set (uniformSetters s). \<forall>u. f u U_ditherMode = u U_ditherMode)"
    show "uniformValues (gl (snd (initWebGL opts e s))) U_ditherMode =
         Some (UFloat (if dither opts = ''bayer'' then 1
                       else if dither opts = ''random'' then 2 else 0))"
    proof (cases "mediaType opts = Video")
      case True
      then show ?thesis using ok
        by (simp add: initWebGL_ok installSession_def createTexture_def useProgram_def
            writeStaticUniforms_def ditherModeValue_def Let_def split: option.splits prod.splits)
    next
      case False
      with k have "\<forall>(i, f) \<in> set (uniformSetters s). \<forall>u. f u U_ditherMode = u U_ditherMode"
        by simp
      from initWebGL_dither[OF ok this] show ?thesis by (simp add: ditherModeValue_def)
    qed
  qed
  show ?thesis using a b c by blast
qed

theorem blend_highlight_dither_uniforms_witness:
  "map (\<lambda>u. (u U_blend, u U_highlight))
     (drawn (gl (render sampleOptions (sampleEnv\<lparr>videoPaused := False\<rparr>) (0, 4, 5)
                  (registerUniformSetter ''mouse'' (\<lambda>u. u(U_mouseRadius \<mapsto> UFloat 3))
                     (snd (initWebGL sampleOptions sampleEnv (initialState 0)))))))
     = [(Some (UFloat (1 / 2)), Some (UFloat 1))]
   \<and> uniformValues (gl (snd (initWebGL sampleOptions sampleEnv (initialState 0)))) U_ditherMode
       = Some (UFloat 2)
   \<and> uniformValues (gl (snd (initWebGL (sampleOptions\<lparr>dither := ''bayer''\<rparr>) sampleEnv
                                 (initialState 0)))) U_ditherMode = Some (UFloat 1)
   \<and> uniformValues (gl (snd (initWebGL (sampleOptions\<lparr>dither := ''none''\<rparr>) sampleEnv
                                 (initialState 0)))) U_ditherMode = Some (UFloat 0)
   \<and> uniformValues (gl (snd (initWebGL (sampleOptions\<lparr>dither := ''ordered''\<rparr>) sampleEnv
                                 (initialState 0)))) U_ditherMode = Some (UFloat 0)"
proof -
  let ?s = "registerUniformSetter ''mouse'' (\<lambda>u. u(U_mouseRadius \<mapsto> UFloat 3))
              (snd (initWebGL sampleOptions sampleEnv (initialState 0)))"
  let ?e = "sampleEnv\<lparr>videoPaused := False\<rparr>"
  have k: "\<forall>(i, f) \<in> set (uniformSetters ?s).
             \<forall>u. f u U_blend = u U_blend \<and> f u U_highlight = u U_highlight
                 \<and> f u U_ditherMode = u U_ditherMode"
    by (simp add: registerUniformSetter_def initWebGL_keeps initialState_def)
  have ok: "fst (initWebGL (sampleOptions\<lparr>dither := d\<rparr>) sampleEnv (initialState 0))" for d
    unfolding initWebGL_fst by (simp add: sampleOptions_def sampleEnv_def)
  have d: "drawn (gl (render sampleOptions ?e (0, 4, 5) ?s)) =
             [applySetters (uniformSetters ?s) (writeFrameUniforms sampleOptions (uniformValues (gl ?s)))]"
    by (simp add: eval_defs)
  from blend_highlight_dither_uniforms[of ?s sampleOptions ?e "(0, 4, 5)"] k
  have a: "map (\<lambda>u. (u U_blend, u U_highlight)) (drawn (gl (render sampleOptions ?e (0, 4, 5) ?s)))
             = [(Some (UFloat (1 / 2)), Some (UFloat 1))]"
    unfolding d by (simp add: eval_defs)
  have dth: "uniformValues (gl (snd (initWebGL (sampleOptions\<lparr>dither := d\<rparr>) sampleEnv
                                       (initialState 0)))) U_ditherMode
               = Some (UFloat (if d = ''bayer'' then 1 else if d = ''random'' then 2 else 0))"
    for d
    using blend_highlight_dither_uniforms[of "initialState 0" "sampleOptions\<lparr>dither := d\<rparr>"
        sampleEnv "(0, 4, 5)"] ok[of d]
    by (simp add: sampleOptions_def)
  from dth[of "''random''"] dth[of "''bayer''"] dth[of "''none''"] dth[of "''ordered''"]
  have b: "uniformValues (gl (snd (initWebGL (sampleOptions\<lparr>dither := ''random''\<rparr>) sampleEnv
                                     (initialState 0)))) U_ditherMode = Some (UFloat 2)
   \<and> uniformValues (gl (snd (initWebGL (sampleOptions\<lparr>dither := ''bayer''\<rparr>) sampleEnv
                                 (initialState 0)))) U_ditherMode = Some (UFloat 1)
   \<and> uniformValues (gl (snd (initWebGL (sampleOptions\<lparr>dither := ''none''\<rparr>) sampleEnv
                                 (initialState 0)))) U_ditherMode = Some (UFloat 0)
   \<and> uniformValues (gl (snd (initWebGL (sampleOptions\<lparr>dither := ''ordered''\<rparr>) sampleEnv
                                 (initialState 0)))) U_ditherMode = Some (UFloat 0)"
    by simp
  have r: "sampleOptions\<lparr>dither := ''random''\<rparr> = sampleOptions" by (simp add: sampleOptions_def)
  show ?thesis using a b unfolding r by simp
qed

text \<open>
  C10. The blend and highlight options are not clamped. Whenever \<^verbatim>\<open>render\<close> draws, the
  values written to \<^verbatim>\<open>u_blend\<close> and \<^verbatim>\<open>u_highlight\<close> before the setters run are
  exactly the options divided by 100, so an option below 0 gives a value below 0 and an
  option above 100 a value above 1; where the setters leave the two uniforms alone, the
  frame is drawn with these values. The same holds, on its own, whenever \<^verbatim>\<open>renderFrame\<close>
  draws. Numbers are exact reals.
\<close>

theorem blend_highlight_not_clamped:
  "(drawn (gl (render opts e t s)) \<noteq> drawn (gl s) \<longrightarrow>
      (\<exists>w b h. last (drawn (gl (render opts e t s))) = applySetters (uniformSetters s) w
               \<and> w U_blend = Some (UFloat b) \<and> w U_highlight = Some (UFloat h)
               \<and> b = blend opts / 100 \<and> h = highlight opts / 100
               \<and> (blend opts < 0 \<longrightarrow> b < 0) \<and> (100 < blend opts \<longrightarrow> 1 < b)
               \<and> (highlight opts < 0 \<longrightarrow> h < 0) \<and> (100 < highlight opts \<longrightarrow> 1 < h)
               \<and> ((\<forall>(i, f) \<in> set (uniformSetters s).
                      \<forall>u. f u U_blend = u U_blend \<and> f u U_highlight = u U_highlight) \<longrightarrow>
                    last (drawn (gl (render opts e t s))) U_blend = Some (UFloat b)
                    \<and> last (drawn (gl (render opts e t s))) U_highlight = Some (UFloat h))))
   \<and> (drawn (gl (renderFrame opts' e' s')) \<noteq> drawn (gl s') \<longrightarrow>
      (\<exists>w b h. last (drawn (gl (renderFrame opts' e' s'))) = applySetters (uniformSetters s') w
               \<and> w U_blend = Some (UFloat b) \<and> w U_highlight = Some (UFloat h)
               \<and> b = blend opts' / 100 \<and> h = highlight opts' / 100
               \<and> (blend opts' < 0 \<longrightarrow> b < 0) \<and> (100 < blend opts' \<longrightarrow> 1 < b)
               \<and> (highlight opts' < 0 \<longrightarrow> h < 0) \<and> (100 < highlight opts' \<longrightarrow> 1 < h)
               \<and> ((\<forall>(i, f) \<in> set (uniformSetters s').
                      \<forall>u. f u U_blend = u U_blend \<and> f u U_highlight = u U_highlight) \<longrightarrow>
                    last (drawn (gl (renderFrame opts' e' s'))) U_blend = Some (UFloat b)
                    \<and> last (drawn (gl (renderFrame opts' e' s'))) U_highlight = Some (UFloat h))))"
proof -
  have key: "\<exists>w b h. applySetters (uniformSetters z) (writeFrameUniforms o' (uniformValues (gl z)))
                        = applySetters (uniformSetters z) w
               \<and> w U_blend = Some (UFloat b) \<and> w U_highlight = Some (UFloat h)
               \<and> b = blend o' / 100 \<and> h = highlight o' / 100
               \<and> (blend o' < 0 \<longrightarrow> b < 0) \<and> (100 < blend o' \<longrightarrow> 1 < b)
               \<and> (highlight o' < 0 \<longrightarrow> h < 0) \<and> (100 < highlight o' \<longrightarrow> 1 < h)
               \<and> ((\<forall>(i, f) \<in> set (uniformSetters z).
                      \<forall>u. f u U_blend = u U_blend \<and> f u U_highlight = u U_highlight) \<longrightarrow>
                    applySetters (uniformSetters z) (writeFrameUniforms o' (uniformValues (gl z)))
                      U_blend = Some (UFloat b)
                    \<and> applySetters (uniformSetters z)
                        (writeFrameUniforms o' (uniformValues (gl z))) U_highlight
                      = Some (UFloat h))" for z :: state and o' :: options
  proof -
    let ?w = "writeFrameUniforms o' (uniformValues (gl z))"
    have w: "?w U_blend = Some (UFloat (blend o' / 100))"
      "?w U_highlight = Some (UFloat (highlight o' / 100))"
      by (simp_all add: writeFrameUniforms_def)
    have k: "(\<forall>(i, f) \<in> set (uniformSetters z).
                \<forall>u. f u U_blend = u U_blend \<and> f u U_highlight = u U_highlight) \<longrightarrow>
             applySetters (uniformSetters z) ?w U_blend = Some (UFloat (blend o' / 100))
             \<and> applySetters (uniformSetters z) ?w U_highlight
                 = Some (UFloat (highlight o' / 100))"
    proof
      assume a: "\<forall>(i, f) \<in> set (uniformSetters z).
                   \<forall>u. f u U_blend = u U_blend \<and> f u U_highlight = u U_highlight"
      then have kb: "\<forall>(i, f) \<in> set (uniformSetters z). \<forall>u. f u U_blend = u U_blend"
        and kh: "\<forall>(i, f) \<in> set (uniformSetters z). \<forall>u. f u U_highlight = u U_highlight"
        by auto
      show "applySetters (uniformSetters z) ?w U_blend = Some (UFloat (blend o' / 100))
             \<and> applySetters (uniformSetters z) ?w U_highlight
                 = Some (UFloat (highlight o' / 100))"
        using frame_blend[OF kb] frame_highlight[OF kh] by simp
    qed
    show ?thesis
      by (rule exI[of _ ?w], rule exI[of _ "blend o' / 100"],
          rule exI[of _ "highlight o' / 100"])
         (use w k in simp)
  qed
  have r: "last (drawn (gl (render opts e t s)))
             = applySetters (uniformSetters s) (writeFrameUniforms opts (uniformValues (gl s)))"
    if "drawn (gl (render opts e t s)) \<noteq> drawn (gl s)"
    using render_drawn[of opts e t s] that by auto
  have f: "last (drawn (gl (renderFrame opts' e' s')))
             = applySetters (uniformSetters s') (writeFrameUniforms opts' (uniformValues (gl s')))"
    if "drawn (gl (renderFrame opts' e' s')) \<noteq> drawn (gl s')"
    using renderFrame_drawn[of opts' e' s'] that by auto
  show ?thesis
  proof (intro conjI impI)
    assume d: "drawn (gl (render opts e t s)) \<noteq> drawn (gl s)"
    show "\<exists>w b h. last (drawn (gl (render opts e t s))) = applySetters (uniformSetters s) w
               \<and> w U_blend = Some (UFloat b) \<and> w U_highlight = Some (UFloat h)
               \<and> b = blend opts / 100 \<and> h = highlight opts / 100
               \<and> (blend opts < 0 \<longrightarrow> b < 0) \<and> (100 < blend opts \<longrightarrow> 1 < b)
               \<and> (highlight opts < 0 \<longrightarrow> h < 0) \<and> (100 < highlight opts \<longrightarrow> 1 < h)
               \<and> ((\<forall>(i, f) \<in> set (uniformSetters s).
                      \<forall>u. f u U_blend = u U_blend \<and> f u U_highlight = u U_highlight) \<longrightarrow>
                    last (drawn (gl (render opts e t s))) U_blend = Some (UFloat b)
                    \<and> last (drawn (gl (render opts e t s))) U_highlight = Some (UFloat h))"
      unfolding r[OF d] by (rule key)
  next
    assume d: "drawn (gl (renderFrame opts' e' s')) \<noteq> drawn (gl s')"
    show "\<exists>w b h. last (drawn (gl (renderFrame opts' e' s'))) = applySetters (uniformSetters s') w
               \<and> w U_blend = Some (UFloat b) \<and> w U_highlight = Some (UFloat h)
               \<and> b = blend opts' / 100 \<and> h = highlight opts' / 100
               \<and> (blend opts' < 0 \<longrightarrow> b < 0) \<and> (100 < blend opts' \<longrightarrow> 1 < b)
               \<and> (highlight opts' < 0 \<longrightarrow> h < 0) \<and> (100 < highlight opts' \<longrightarrow> 1 < h)
               \<and> ((\<forall>(i, f) \<in> set (uniformSetters s').
                      \<forall>u. f u U_blend = u U_blend \<and> f u U_highlight = u U_highlight) \<longrightarrow>
                    last (drawn (gl (renderFrame opts' e' s'))) U_blend = Some (UFloat b)
                    \<and> last (drawn (gl (renderFrame opts' e' s'))) U_highlight = Some (UFloat h))"
      unfolding f[OF d] by (rule key)
  qed
qed

theorem blend_highlight_not_clamped_witness:
  "last (drawn (gl (render (sampleOptions\<lparr>blend := 250, highlight := - 20\<rparr>)
                     (sampleEnv\<lparr>imagePresent := False, videoPaused := False\<rparr>) (0, 4, 5)
                     (snd (initWebGL (sampleOptions\<lparr>blend := 250, highlight := - 20\<rparr>)
                            (sampleEnv\<lparr>imagePresent := False\<rparr>) (initialState 0))))))
     U_blend = Some (UFloat (5 / 2))
   \<and> last (drawn (gl (render (sampleOptions\<lparr>blend := 250, highlight := - 20\<rparr>)
                     (sampleEnv\<lparr>imagePresent := False, videoPaused := False\<rparr>) (0, 4, 5)
                     (snd (initWebGL (sampleOptions\<lparr>blend := 250, highlight := - 20\<rparr>)
                            (sampleEnv\<lparr>imagePresent := False\<rparr>) (initialState 0))))))
     U_highlight = Some (UFloat (- 1 / 5))
   \<and> last (drawn (gl (snd (initWebGL
                     (sampleOptions\<lparr>blend := 250, highlight := - 20, mediaType := Image\<rparr>)
                     (sampleEnv\<lparr>videoPresent := False\<rparr>) (initialState 0)))))
     U_blend = Some (UFloat (5 / 2))
   \<and> last (drawn (gl (snd (initWebGL
                     (sampleOptions\<lparr>blend := 250, highlight := - 20, mediaType := Image\<rparr>)
                     (sampleEnv\<lparr>videoPresent := False\<rparr>) (initialState 0)))))
     U_highlight = Some (UFloat (- 1 / 5))"
proof -
  let ?o = "sampleOptions\<lparr>blend := 250, highlight := - 20\<rparr>"
  let ?ev = "sampleEnv\<lparr>imagePresent := False, videoPaused := False\<rparr>"
  let ?sv = "snd (initWebGL ?o (sampleEnv\<lparr>imagePresent := False\<rparr>) (initialState 0))"
  let ?oi = "sampleOptions\<lparr>blend := 250, highlight := - 20, mediaType := Image\<rparr>"
  let ?ei = "sampleEnv\<lparr>videoPresent := False\<rparr>"
  let ?g = "gl (initialState 0)"
  let ?s3 = "(initialState 0)\<lparr>needsMipmapUpdateRef := True,
               dimensions := grid (computeLayout ?oi ?ei), glRef := True,
               gl := ?g\<lparr>shaders := insert (Suc (nextObject ?g))
                                     (insert (nextObject ?g) (shaders ?g)),
                       programs := insert (Suc (Suc (nextObject ?g))) (programs ?g),
                       nextObject := Suc (Suc (Suc (nextObject ?g)))\<rparr>\<rparr>"
  let ?s4 = "installSession ?oi ?ei (computeLayout ?oi ?ei) (Suc (Suc (nextObject ?g))) ?s3"
  have kv: "uniformSetters ?sv = []"
    by (simp add: initWebGL_keeps initialState_def)
  have dv: "drawn (gl (render ?o ?ev (0, 4, 5) ?sv)) \<noteq> drawn (gl ?sv)"
    by (simp add: eval_defs)
  have ok: "fst (initWebGL ?oi ?ei (initialState 0))"
    unfolding initWebGL_fst by (simp add: sampleOptions_def sampleEnv_def)
  have eq: "snd (initWebGL ?oi ?ei (initialState 0)) = renderFrame ?oi ?ei ?s4"
    using initWebGL_ok[OF ok] by (simp add: Let_def)
  have ki: "uniformSetters ?s4 = []"
    by (simp add: installSession_def createTexture_def useProgram_def initialState_def Let_def)
  have di: "drawn (gl (renderFrame ?oi ?ei ?s4)) \<noteq> drawn (gl ?s4)"
    by (simp add: eval_defs)
  from blend_highlight_not_clamped[of ?o ?ev "(0, 4, 5)" ?sv ?oi ?ei ?s4] dv di
  show ?thesis unfolding eq kv ki by auto
qed

section \<open>The uniform registry\<close>

text \<open>
  C7. In a registry with one entry per identifier (as a \<^verbatim>\<open>Map\<close> is), registering \<open>f\<close> and
  then \<open>g\<close> under the same identifier leaves exactly one entry for it, holding \<open>g\<close>.
  Registering and then unregistering an identifier leaves no entry for it: the registry is
  what it was if the identifier was new, and empty if it was empty. A frame after that
  does not depend on the removed setter, and every frame \<^verbatim>\<open>render\<close> draws is the result
  of the setters registered at that time, applied in the registry's order.
\<close>

theorem registry_replace_and_remove:
  assumes "distinct (map fst (uniformSetters s))"
  shows "filter (\<lambda>en. fst en = ident)
           (uniformSetters (registerUniformSetter ident g (registerUniformSetter ident f s)))
         = [(ident, g)]
       \<and> ident \<notin> fst ` set (uniformSetters
                               (unregisterUniformSetter ident (registerUniformSetter ident f s)))
       \<and> (ident \<notin> fst ` set (uniformSetters s) \<longrightarrow>
            uniformSetters (unregisterUniformSetter ident (registerUniformSetter ident f s))
              = uniformSetters s)
       \<and> uniformSetters (unregisterUniformSetter ident
                           (registerUniformSetter ident f (s\<lparr>uniformSetters := []\<rparr>))) = []
       \<and> render opts e t (unregisterUniformSetter ident (registerUniformSetter ident f s))
           = render opts e t (unregisterUniformSetter ident s)
       \<and> (\<forall>u \<in> set (drop (length (drawn (gl s))) (drawn (gl (render opts e t s)))).
            u = fold (\<lambda>setter. setter) (map snd (uniformSetters s))
                  (writeFrameUniforms opts (uniformValues (gl s))))"
proof -
  have d1: "distinct (map fst (mapSet ident f (uniformSetters s)))"
    using assms by (rule distinct_mapSet)
  have a: "filter (\<lambda>en. fst en = ident)
           (uniformSetters (registerUniformSetter ident g (registerUniformSetter ident f s)))
         = [(ident, g)]"
    using filter_mapSet[OF d1] by (simp add: registerUniformSetter_def)
  have b: "ident \<notin> fst ` set (uniformSetters
                               (unregisterUniformSetter ident (registerUniformSetter ident f s)))"
    using mapDelete_keys[of ident] by (simp add: unregisterUniformSetter_def)
  have c: "uniformSetters (unregisterUniformSetter ident (registerUniformSetter ident f s))
             = mapDelete ident (uniformSetters s)"
    by (simp add: unregisterUniformSetter_def registerUniformSetter_def mapDelete_mapSet)
  have c': "ident \<notin> fst ` set (uniformSetters s) \<longrightarrow>
            uniformSetters (unregisterUniformSetter ident (registerUniformSetter ident f s))
              = uniformSetters s"
    unfolding c by (simp add: mapDelete_absent)
  have d: "uniformSetters (unregisterUniformSetter ident
                           (registerUniformSetter ident f (s\<lparr>uniformSetters := []\<rparr>))) = []"
    by (simp add: unregisterUniformSetter_def registerUniformSetter_def mapDelete_def)
  have e: "unregisterUniformSetter ident (registerUniformSetter ident f s)
             = unregisterUniformSetter ident s"
    by (simp add: unregisterUniformSetter_def registerUniformSetter_def mapDelete_mapSet)
  have r: "\<forall>u \<in> set (drop (length (drawn (gl s))) (drawn (gl (render opts e t s)))).
            u = fold (\<lambda>setter. setter) (map snd (uniformSetters s))
                  (writeFrameUniforms opts (uniformValues (gl s)))"
    using render_drawn[of opts e t s] by (auto simp: applySetters_def)
  show ?thesis using a b c' d r unfolding e by simp
qed


theorem registry_replace_and_remove_witness:
  "filter (\<lambda>en. fst en = ''mouse'')
     (uniformSetters
        (registerUniformSetter ''mouse'' (\<lambda>u. u(U_mouseRadius \<mapsto> UFloat 9))
           (registerUniformSetter ''mouse'' (\<lambda>u. u(U_mouseRadius \<mapsto> UFloat 3))
              (registerUniformSetter ''ripple'' (\<lambda>u. u(U_rippleEnabled \<mapsto> UFloat 1))
                 (initialState 0)))))
     = [(''mouse'', \<lambda>u. u(U_mouseRadius \<mapsto> UFloat 9))]
   \<and> map fst (uniformSetters
        (unregisterUniformSetter ''mouse''
           (registerUniformSetter ''mouse'' (\<lambda>u. u(U_mouseRadius \<mapsto> UFloat 3))
              (registerUniformSetter ''ripple'' (\<lambda>u. u(U_rippleEnabled \<mapsto> UFloat 1))
                 (initialState 0))))) = [''ripple'']"
proof -
  let ?s = "registerUniformSetter ''ripple'' (\<lambda>u. u(U_rippleEnabled \<mapsto> UFloat 1)) (initialState 0)"
  have s: "uniformSetters ?s = [(''ripple'', \<lambda>u. u(U_rippleEnabled \<mapsto> UFloat 1))]"
    by (simp add: registerUniformSetter_def initialState_def)
  have d: "distinct (map fst (uniformSetters ?s))" unfolding s by simp
  from registry_replace_and_remove[OF d, of "''mouse''" "\<lambda>u. u(U_mouseRadius \<mapsto> UFloat 9)"
      "\<lambda>u. u(U_mouseRadius \<mapsto> UFloat 3)" sampleOptions sampleEnv "(0, 4, 5)"]
  show ?thesis unfolding s by simp
qed

section \<open>Stopping the loop\<close>



section \<open>Failing initialisation\<close>

text \<open>
  C2, as amended. For every failing run of \<^verbatim>\<open>initWebGL\<close> (the canvas, the container or
  the media unavailable, no graphics context, a shader that does not compile, a program
  that does not link), the result is failure and nothing is registered: the program, media
  texture, atlas texture and uniform location refs and the ready flag keep the values they
  had before the call, no program and no texture is created, no uniform is written and
  nothing is drawn. So a session that was not ready stays not ready, and one that was ready
  before a failing run stays as it was.
\<close>

theorem failed_init_registers_nothing:
  assumes "\<not> canvasPresent e \<or> \<not> containerPresent e
           \<or> (if mediaType opts = Video then \<not> videoPresent e \<or> videoWidth e = 0
               else \<not> imagePresent e \<or> naturalWidth e = 0 \<or> \<not> imageComplete e)
           \<or> \<not> webgl2Available e \<or> \<not> vertexCompiles e \<or> \<not> fragmentCompiles e
           \<or> \<not> programLinks e"
  shows "fst (initWebGL opts e s) = False
       \<and> programRef (snd (initWebGL opts e s)) = programRef s
       \<and> videoTextureRef (snd (initWebGL opts e s)) = videoTextureRef s
       \<and> atlasTextureRef (snd (initWebGL opts e s)) = atlasTextureRef s
       \<and> uniformLocationsRef (snd (initWebGL opts e s)) = uniformLocationsRef s
       \<and> isReady (snd (initWebGL opts e s)) = isReady s
       \<and> programs (gl (snd (initWebGL opts e s))) = programs (gl s)
       \<and> textures (gl (snd (initWebGL opts e s))) = textures (gl s)
       \<and> uniformValues (gl (snd (initWebGL opts e s))) = uniformValues (gl s)
       \<and> drawn (gl (snd (initWebGL opts e s))) = drawn (gl s)"
proof -
  from assms have f: "\<not> fst (initWebGL opts e s)"
    unfolding initWebGL_fst by (auto split: if_splits)
  from initWebGL_fail[OF f] f show ?thesis
    by (elim disjE) (simp_all add: compileShader_def)
qed

theorem failed_init_registers_nothing_witness:
  "fst (initWebGL sampleOptions (sampleEnv\<lparr>fragmentCompiles := False\<rparr>) (initialState 0)) = False
   \<and> programRef (snd (initWebGL sampleOptions (sampleEnv\<lparr>fragmentCompiles := False\<rparr>)
                        (initialState 0))) = None
   \<and> isReady (snd (initWebGL sampleOptions (sampleEnv\<lparr>fragmentCompiles := False\<rparr>)
                     (initialState 0))) = False
   \<and> programs (gl (snd (initWebGL sampleOptions (sampleEnv\<lparr>fragmentCompiles := False\<rparr>)
                          (initialState 0)))) = {}"
  using failed_init_registers_nothing[of "sampleEnv\<lparr>fragmentCompiles := False\<rparr>" sampleOptions
      "initialState 0"]
  by (simp add: initialState_def)

text \<open>
  The claim as stated fails in two ways. When the vertex shader compiles and the fragment
  shader does not, \<^verbatim>\<open>initWebGL\<close> returns false and the vertex shader, created before
  the failing step, still exists. When a run fails after an earlier one has succeeded, the
  ready flag is still set.
\<close>

theorem failed_init_counterexample:
  "fst (initWebGL sampleOptions (sampleEnv\<lparr>fragmentCompiles := False\<rparr>) (initialState 0)) = False
   \<and> shaders (gl (initialState 0)) = {}
   \<and> shaders (gl (snd (initWebGL sampleOptions (sampleEnv\<lparr>fragmentCompiles := False\<rparr>)
                         (initialState 0)))) = {0}
   \<and> isReady (snd (initWebGL sampleOptions sampleEnv (initialState 0)))
   \<and> fst (initWebGL sampleOptions (sampleEnv\<lparr>vertexCompiles := False, fragmentCompiles := False\<rparr>)
           (snd (initWebGL sampleOptions sampleEnv (initialState 0)))) = False
   \<and> isReady (snd (initWebGL sampleOptions
                     (sampleEnv\<lparr>vertexCompiles := False, fragmentCompiles := False\<rparr>)
                     (snd (initWebGL sampleOptions sampleEnv (initialState 0)))))"
  by (simp add: eval_defs)

section \<open>Initialising again\<close>

text \<open>
  C1. The claim is that initialising again while a session exists tears down the old
  session's program and atlas texture, so that nothing is leaked. The code does not do
  this. Whenever \<^verbatim>\<open>initWebGL\<close> succeeds in a state whose refs hold a program \<open>p\<close> and an
  atlas texture \<open>a\<close> created earlier, the refs hold other objects afterwards, while \<open>p\<close> and
  \<open>a\<close> still exist, and they still exist after the cleanup on unmount, which deletes only
  what the refs hold.
\<close>

theorem reinit_leaves_old_program_and_atlas:
  assumes "fst (initWebGL opts e s)"
    and "programRef s = Some p" and "p \<in> programs (gl s)" and "p < nextObject (gl s)"
    and "atlasTextureRef s = Some a" and "a \<in> textures (gl s)" and "a < nextObject (gl s)"
    and "videoTextureRef s \<noteq> Some a"
  shows "programRef (snd (initWebGL opts e s)) \<noteq> Some p
       \<and> atlasTextureRef (snd (initWebGL opts e s)) \<noteq> Some a
       \<and> videoTextureRef (snd (initWebGL opts e s)) \<noteq> Some a
       \<and> p \<in> programs (gl (snd (initWebGL opts e s)))
       \<and> a \<in> textures (gl (snd (initWebGL opts e s)))
       \<and> p \<in> programs (gl (unmountCleanup (snd (initWebGL opts e s))))
       \<and> a \<in> textures (gl (unmountCleanup (snd (initWebGL opts e s))))"
proof (cases "videoTextureRef s")
  case None
  then show ?thesis using assms
    by (simp add: initWebGL_ok installSession_def renderFrame_def drawFrame_def drawArrays_def
        createTexture_def useProgram_def unmountCleanup_def deleteTexture_def deleteProgram_def
        cancelAnimationFrame_def Let_def)
next
  case (Some t)
  then show ?thesis using assms
    by (simp add: initWebGL_ok installSession_def renderFrame_def drawFrame_def drawArrays_def
        createTexture_def useProgram_def unmountCleanup_def deleteTexture_def deleteProgram_def
        cancelAnimationFrame_def Let_def)
qed

text \<open>
  A ready 640 by 480 video is initialised (program 2, media texture 3, atlas texture 4);
  the container is resized and \<^verbatim>\<open>initWebGL\<close> runs again (program 7, atlas texture 8, the
  media texture is kept).
\<close>

theorem reinit_leaves_old_program_and_atlas_witness:
  "programRef (snd (initWebGL sampleOptions sampleEnv (initialState 0))) = Some 2
   \<and> atlasTextureRef (snd (initWebGL sampleOptions sampleEnv (initialState 0))) = Some 4
   \<and> programRef (reinitialize sampleOptions (sampleEnv\<lparr>clientWidth := 480\<rparr>)
                   (snd (initWebGL sampleOptions sampleEnv (initialState 0)))) = Some 7
   \<and> atlasTextureRef (reinitialize sampleOptions (sampleEnv\<lparr>clientWidth := 480\<rparr>)
                        (snd (initWebGL sampleOptions sampleEnv (initialState 0)))) = Some 8
   \<and> 2 \<in> programs (gl (reinitialize sampleOptions (sampleEnv\<lparr>clientWidth := 480\<rparr>)
                         (snd (initWebGL sampleOptions sampleEnv (initialState 0)))))
   \<and> 4 \<in> textures (gl (reinitialize sampleOptions (sampleEnv\<lparr>clientWidth := 480\<rparr>)
                         (snd (initWebGL sampleOptions sampleEnv (initialState 0)))))
   \<and> 2 \<in> programs (gl (unmountCleanup
                         (reinitialize sampleOptions (sampleEnv\<lparr>clientWidth := 480\<rparr>)
                            (snd (initWebGL sampleOptions sampleEnv (initialState 0))))))
   \<and> 4 \<in> textures (gl (unmountCleanup
                         (reinitialize sampleOptions (sampleEnv\<lparr>clientWidth := 480\<rparr>)
                            (snd (initWebGL sampleOptions sampleEnv (initialState 0))))))"
proof -
  let ?s1 = "snd (initWebGL sampleOptions sampleEnv (initialState 0))"
  let ?e = "sampleEnv\<lparr>clientWidth := 480\<rparr>"
  have ok: "fst (initWebGL sampleOptions ?e ?s1)"
    unfolding initWebGL_fst by (simp add: sampleOptions_def sampleEnv_def)
  have r: "reinitialize sampleOptions ?e ?s1 = snd (initWebGL sampleOptions ?e ?s1)"
    by (simp add: reinitialize_def sampleOptions_def sampleEnv_def)
  have s1: "programRef ?s1 = Some 2" "2 \<in> programs (gl ?s1)" "2 < nextObject (gl ?s1)"
    "atlasTextureRef ?s1 = Some 4" "4 \<in> textures (gl ?s1)" "4 < nextObject (gl ?s1)"
    "videoTextureRef ?s1 \<noteq> Some 4"
    by (simp_all add: eval_defs)
  have new: "programRef (snd (initWebGL sampleOptions ?e ?s1)) = Some 7"
    "atlasTextureRef (snd (initWebGL sampleOptions ?e ?s1)) = Some 8"
    by (simp_all add: eval_defs)
  from reinit_leaves_old_program_and_atlas[OF ok s1] s1 new
  show ?thesis unfolding r by simp
qed

end
